theory Spec2Isabelle
  imports Main "HOL-Library.AList" "HOL-Library.Multiset"
begin

section \<open>JavaScript values used by the MCP core\<close>

text \<open>
  A JavaScript \<^verbatim>\<open>Map\<close> keeps its entries in insertion order: \<^verbatim>\<open>set\<close> on a key that
  is present replaces the value where it stands, \<^verbatim>\<open>set\<close> on a new key appends, and
  \<^verbatim>\<open>delete\<close> removes the entry.  It is modelled as an association list, with
  \<^const>\<open>AList.update\<close> and \<^const>\<open>AList.delete\<close>, which do exactly that.
\<close>

type_synonym ('k, 'v) js_map = "('k \<times> 'v) list"

definition map_get :: "('k, 'v) js_map \<Rightarrow> 'k \<Rightarrow> 'v option" where
  "map_get m k = map_of m k"

definition map_set :: "'k \<Rightarrow> 'v \<Rightarrow> ('k, 'v) js_map \<Rightarrow> ('k, 'v) js_map" where
  "map_set k v m = AList.update k v m"

definition map_delete :: "'k \<Rightarrow> ('k, 'v) js_map \<Rightarrow> ('k, 'v) js_map" where
  "map_delete k m = AList.delete k m"

definition map_values :: "('k, 'v) js_map \<Rightarrow> 'v list" where
  "map_values m = map snd m"

text \<open>Values of type \<^verbatim>\<open>any\<close> (schemas, arguments, payloads) are kept as their JSON text.\<close>

type_synonym any = string

text \<open>\<^verbatim>\<open>xs.findIndex(p)\<close>: the index of the first element satisfying \<open>p\<close>, or \<open>-1\<close>.\<close>

fun findIndex :: "('a \<Rightarrow> bool) \<Rightarrow> 'a list \<Rightarrow> int" where
  "findIndex p [] = -1"
| "findIndex p (x # xs) =
     (if p x then 0 else (let i = findIndex p xs in if i < 0 then -1 else i + 1))"

text \<open>
  A string is kept as its UTF-8 text.  \<^verbatim>\<open>s.toLowerCase()\<close> applies the case mapping of
  Unicode, a table of the JavaScript engine and not of the repository: the functions that
  call it take it as the parameter \<open>lower\<close>.  Where a concrete name has to be lowered, what
  is used of \<open>lower\<close> is what \<^verbatim>\<open>toLowerCase\<close> does on ASCII text: the letters \<^verbatim>\<open>A\<close> to
  \<^verbatim>\<open>Z\<close> become \<^verbatim>\<open>a\<close> to \<^verbatim>\<open>z\<close> and every other character stays.
\<close>

definition lower_char :: "char \<Rightarrow> char" where
  "lower_char c =
     (let n = (of_char c :: nat) in if 65 \<le> n \<and> n \<le> 90 then char_of (n + 32) else c)"

definition ascii_lowering :: "(string \<Rightarrow> string) \<Rightarrow> bool" where
  "ascii_lowering lower \<longleftrightarrow>
     (\<forall>s. (\<forall>c \<in> set s. (of_char c :: nat) < 128) \<longrightarrow> lower s = map lower_char s)"

fun startsWith :: "string \<Rightarrow> string \<Rightarrow> bool" where
  "startsWith s [] = True"
| "startsWith [] (p # ps) = False"
| "startsWith (c # cs) (p # ps) = (c = p \<and> startsWith cs ps)"

text \<open>
  \<^verbatim>\<open>s.includes(sub)\<close>: \<open>sub\<close> occurs in \<open>s\<close> as a contiguous substring.  Every
  \<open>sub\<close> the code searches for is ASCII, and an ASCII byte of UTF-8 text is an ASCII
  character, so the search in the bytes finds what the search in the characters finds.
\<close>

fun str_includes :: "string \<Rightarrow> string \<Rightarrow> bool" where
  "str_includes [] sub = (sub = [])"
| "str_includes (c # cs) sub = (startsWith (c # cs) sub \<or> str_includes cs sub)"

section \<open>The tool registry (MCPToolRegistry.ts)\<close>

text \<open>\<^verbatim>\<open>interface MCPTool\<close> of types.ts; an optional field is an \<open>option\<close>.\<close>

record MCPTool =
  name :: string
  description :: "string option"
  inputSchema :: any
  serverName :: "string option"

record MCPToolRegistry =
  tools :: "(string, MCPTool) js_map"
  serverTools :: "(string, MCPTool list) js_map"

definition MCPToolRegistry_new :: MCPToolRegistry where
  "MCPToolRegistry_new = \<lparr>tools = [], serverTools = []\<rparr>"

text \<open>
  A template literal \<^verbatim>\<open>`${x}`\<close> prints an undefined \<open>x\<close> as the text \<^verbatim>\<open>undefined\<close>.
\<close>

definition template_str :: "string option \<Rightarrow> string" where
  "template_str x = (case x of None \<Rightarrow> ''undefined'' | Some s \<Rightarrow> s)"

text \<open>\<^verbatim>\<open>x || d\<close> on an optional string: undefined and the empty string are both falsy.\<close>

definition or_default :: "string option \<Rightarrow> string \<Rightarrow> string" where
  "or_default x d = (case x of None \<Rightarrow> d | Some s \<Rightarrow> if s = [] then d else s)"

text \<open>\<^verbatim>\<open>m.get(k) || []\<close>: an array, even an empty one, is truthy.\<close>

definition get_or_empty :: "('k, 'v list) js_map \<Rightarrow> 'k \<Rightarrow> 'v list" where
  "get_or_empty m k = (case map_get m k of None \<Rightarrow> [] | Some xs \<Rightarrow> xs)"

definition toolKey :: "MCPTool \<Rightarrow> string" where
  "toolKey tool = template_str (serverName tool) @ '':'' @ name tool"

definition registerTool :: "MCPTool \<Rightarrow> MCPToolRegistry \<Rightarrow> MCPToolRegistry" where
  "registerTool tool r =
     (let tools' = map_set (toolKey tool) tool (tools r);
          sn = or_default (serverName tool) ''unknown'';
          sts = get_or_empty (serverTools r) sn;
          existingIndex = findIndex (\<lambda>t. name t = name tool) sts;
          sts' = (if existingIndex \<ge> 0 then sts[nat existingIndex := tool] else sts @ [tool])
      in \<lparr>tools = tools', serverTools = map_set sn sts' (serverTools r)\<rparr>)"

definition registerTools :: "MCPTool list \<Rightarrow> MCPToolRegistry \<Rightarrow> MCPToolRegistry" where
  "registerTools ts r = fold registerTool ts r"

definition getTool :: "MCPToolRegistry \<Rightarrow> string \<Rightarrow> string \<Rightarrow> MCPTool option" where
  "getTool r sn toolName = map_get (tools r) (sn @ '':'' @ toolName)"

definition getAllTools :: "MCPToolRegistry \<Rightarrow> MCPTool list" where
  "getAllTools r = map_values (tools r)"

definition getServerTools :: "MCPToolRegistry \<Rightarrow> string \<Rightarrow> MCPTool list" where
  "getServerTools r sn = get_or_empty (serverTools r) sn"

definition categorizeToolByName :: "(string \<Rightarrow> string) \<Rightarrow> string \<Rightarrow> string" where
  "categorizeToolByName lower toolName =
     (let n = lower toolName in
      if str_includes n ''file'' \<or> str_includes n ''dir'' \<or> str_includes n ''path'' \<or>
         str_includes n ''read'' \<or> str_includes n ''write'' \<or> str_includes n ''list''
      then ''filesystem''
      else if str_includes n ''http'' \<or> str_includes n ''fetch'' \<or> str_includes n ''request'' \<or>
         str_includes n ''url'' \<or> str_includes n ''api''
      then ''network''
      else if str_includes n ''json'' \<or> str_includes n ''csv'' \<or> str_includes n ''data'' \<or>
         str_includes n ''parse'' \<or> str_includes n ''format''
      then ''data''
      else if str_includes n ''system'' \<or> str_includes n ''process'' \<or> str_includes n ''env'' \<or>
         str_includes n ''exec'' \<or> str_includes n ''command''
      then ''system''
      else ''other'')"

text \<open>
  \<^verbatim>\<open>categories[category].push(tool)\<close>: indexing the object with a string that is not one
  of its keys gives undefined, and the call of \<^verbatim>\<open>push\<close> on it raises a TypeError.
\<close>

datatype error_class = PlainError | TypeError | SyntaxError

type_synonym categories = "(string, MCPTool list) js_map"

definition push_category :: "string \<Rightarrow> MCPTool \<Rightarrow> categories \<Rightarrow> error_class + categories" where
  "push_category category tool cs =
     (case map_get cs category of
        None \<Rightarrow> Inl TypeError
      | Some ts \<Rightarrow> Inr (map_set category (ts @ [tool]) cs))"

fun categorize_each ::
  "(string \<Rightarrow> string) \<Rightarrow> MCPTool list \<Rightarrow> categories \<Rightarrow> error_class + categories" where
  "categorize_each lower [] cs = Inr cs"
| "categorize_each lower (tool # rest) cs =
     (case push_category (categorizeToolByName lower (name tool)) tool cs of
        Inl e \<Rightarrow> Inl e
      | Inr cs' \<Rightarrow> categorize_each lower rest cs')"

definition empty_categories :: categories where
  "empty_categories =
     [(''filesystem'', []), (''network'', []), (''data'', []), (''system'', []), (''other'', [])]"

definition getToolsByCategory ::
  "(string \<Rightarrow> string) \<Rightarrow> MCPToolRegistry \<Rightarrow> error_class + categories" where
  "getToolsByCategory lower r = categorize_each lower (getAllTools r) empty_categories"

definition clearServerTools :: "string \<Rightarrow> MCPToolRegistry \<Rightarrow> MCPToolRegistry" where
  "clearServerTools sn r =
     (let sts = get_or_empty (serverTools r) sn;
          tools' = fold (\<lambda>tool m. map_delete (sn @ '':'' @ name tool) m) sts (tools r)
      in \<lparr>tools = tools', serverTools = map_delete sn (serverTools r)\<rparr>)"

definition clearAllTools :: "MCPToolRegistry \<Rightarrow> MCPToolRegistry" where
  "clearAllTools r = \<lparr>tools = [], serverTools = []\<rparr>"

text \<open>
  The de-duplication step of \<^verbatim>\<open>registerTool\<close> on its own: replace the first tool of the
  group that has the same name, or append.
\<close>

definition upsert :: "MCPTool \<Rightarrow> MCPTool list \<Rightarrow> MCPTool list" where
  "upsert tool sts =
     (if findIndex (\<lambda>t. name t = name tool) sts \<ge> 0
      then sts[nat (findIndex (\<lambda>t. name t = name tool) sts) := tool] else sts @ [tool])"

subsection \<open>Registry states\<close>

text \<open>
  The registries a program can build: it starts from the empty registry and calls
  \<^verbatim>\<open>registerTool\<close> (with tools satisfying \<open>P\<close>), \<^verbatim>\<open>clearServerTools\<close> and
  \<^verbatim>\<open>clearAllTools\<close>; \<^verbatim>\<open>registerTools\<close> is a sequence of \<^verbatim>\<open>registerTool\<close> calls.
\<close>

inductive reachable :: "(MCPTool \<Rightarrow> bool) \<Rightarrow> MCPToolRegistry \<Rightarrow> bool" for P where
  reach_new: "reachable P MCPToolRegistry_new"
| reach_register: "reachable P r \<Longrightarrow> P tool \<Longrightarrow> reachable P (registerTool tool r)"
| reach_clear: "reachable P r \<Longrightarrow> reachable P (clearServerTools sn r)"
| reach_clear_all: "reachable P r \<Longrightarrow> reachable P (clearAllTools r)"

text \<open>
  What every such registry satisfies: both maps have one entry per key, and within a
  group no two tools have the same name.
\<close>

definition well_formed :: "MCPToolRegistry \<Rightarrow> bool" where
  "well_formed r \<longleftrightarrow>
     distinct (map fst (tools r)) \<and> distinct (map fst (serverTools r)) \<and>
     (\<forall>g. distinct (map name (get_or_empty (serverTools r) g)))"

text \<open>
  An owner that the key scheme \<^verbatim>\<open>`${serverName}:${name}`\<close> can tell apart: if the tool
  names a server, the name is not empty and holds no colon.
\<close>

definition valid_owner :: "MCPTool \<Rightarrow> bool" where
  "valid_owner tool =
     (case serverName tool of None \<Rightarrow> True | Some s \<Rightarrow> s \<noteq> [] \<and> CHR '':'' \<notin> set s)"

text \<open>
  The link between the two maps when every registered owner is valid: a flat entry stands
  under its tool's key, a tool that names its server is listed (by name) in that server's
  group, and no group name holds a colon.
\<close>

definition keyed :: "MCPToolRegistry \<Rightarrow> bool" where
  "keyed r \<longleftrightarrow>
     (\<forall>p \<in> set (tools r). fst p = toolKey (snd p) \<and> valid_owner (snd p) \<and>
        (\<forall>s. serverName (snd p) = Some s \<longrightarrow>
           name (snd p) \<in> name ` set (get_or_empty (serverTools r) s))) \<and>
     (\<forall>g \<in> fst ` set (serverTools r). CHR '':'' \<notin> set g)"

definition category_names :: "string list" where
  "category_names = [''filesystem'', ''network'', ''data'', ''system'', ''other'']"

subsection \<open>Concrete tools and registries used as examples\<close>

definition orphan :: MCPTool where
  "orphan = \<lparr>name = ''echo'', description = Some ''Echo input'', inputSchema = ''{}'', serverName = None\<rparr>"

definition mk_tool :: "string \<Rightarrow> string \<Rightarrow> string \<Rightarrow> MCPTool" where
  "mk_tool n d s = \<lparr>name = n, description = Some d, inputSchema = ''{}'', serverName = Some s\<rparr>"

definition clear_test_registry :: MCPToolRegistry where
  "clear_test_registry =
     registerTools [mk_tool ''tool1'' [] ''server1'', mk_tool ''tool2'' [] ''server1'',
       mk_tool ''tool3'' [] ''server2''] MCPToolRegistry_new"

definition colliding_registry :: MCPToolRegistry where
  "colliding_registry =
     registerTool (mk_tool ''c'' [] ''a:b'') (registerTool (mk_tool ''b:c'' [] ''a'') MCPToolRegistry_new)"

definition nameless_registry :: MCPToolRegistry where
  "nameless_registry = registerTool (mk_tool ''x'' [] []) MCPToolRegistry_new"

definition category_test_registry :: MCPToolRegistry where
  "category_test_registry =
     registerTools [mk_tool ''file-read'' [] ''fs'', mk_tool ''http-get'' [] ''net'',
       mk_tool ''json-parse'' [] ''data'', mk_tool ''system-info'' [] ''sys'',
       mk_tool ''mystery-tool'' [] ''other''] MCPToolRegistry_new"

section \<open>Errors (types.ts)\<close>

text \<open>
  The values the code throws are \<^verbatim>\<open>Error\<close> objects: the built-in classes, and
  \<^verbatim>\<open>MCPError\<close> with its code, server name and original error.
\<close>

datatype mcp_error_code =
  SERVER_START_FAILED | SERVER_CONNECTION_FAILED | TOOL_CALL_FAILED |
  INVALID_CONFIG | PERMISSION_DENIED | TIMEOUT

datatype js_error =
  JsError error_class string
| MCPError string mcp_error_code "string option" "js_error option"

fun error_name :: "js_error \<Rightarrow> string" where
  "error_name (JsError PlainError _) = ''Error''"
| "error_name (JsError TypeError _) = ''TypeError''"
| "error_name (JsError SyntaxError _) = ''SyntaxError''"
| "error_name (MCPError _ _ _ _) = ''MCPError''"

fun error_message :: "js_error \<Rightarrow> string" where
  "error_message (JsError _ msg) = msg"
| "error_message (MCPError msg _ _ _) = msg"

text \<open>
  \<^verbatim>\<open>String(error)\<close> and \<^verbatim>\<open>`${error}`\<close> call \<^verbatim>\<open>Error.prototype.toString\<close>: the name alone
  when the message is empty, otherwise the name, a colon, a space and the message.
\<close>

definition String_error :: "js_error \<Rightarrow> string" where
  "String_error e =
     (if error_message e = [] then error_name e else error_name e @ '': '' @ error_message e)"



section \<open>Data of the process manager (types.ts)\<close>

record MCPServerConfig =
  command :: string
  args :: "string list"
  env :: "(string \<times> string) list option"
  autoStart :: "bool option"
  timeout :: "nat option"
  cwd :: "string option"

text \<open>The union \<^verbatim>\<open>'stopped' | 'starting' | 'running' | 'error' | 'stopping'\<close>.\<close>

datatype server_state = STOPPED | STARTING | RUNNING | ERROR | STOPPING

record server_info =
  info_name :: string
  info_version :: string
  info_protocolVersion :: string

text \<open>
  \<^verbatim>\<open>interface MCPServerStatus\<close>.  Its field \<^verbatim>\<open>name\<close> is \<open>status_name\<close> here, since
  \<open>name\<close> is the field of \<^typ>\<open>MCPTool\<close>.
\<close>

record MCPServerStatus =
  status_name :: string
  status :: server_state
  pid :: "nat option"
  startTime :: "nat option"
  error :: "string option"
  toolCount :: "nat option"
  serverInfo :: "server_info option"

text \<open>
  \<^verbatim>\<open>Partial<MCPServerStatus>\<close>: every key may be absent (\<open>None\<close>).  A key that is present
  with the value undefined (as \<^verbatim>\<open>serverInfo: undefined\<close> in \<^verbatim>\<open>startServer\<close>) is
  \<open>Some None\<close>, and the spread \<^verbatim>\<open>{...currentStatus, ...status}\<close> overwrites with it.
\<close>

record status_patch =
  set_name :: "string option"
  set_status :: "server_state option"
  set_pid :: "nat option option"
  set_startTime :: "nat option option"
  set_error :: "string option option"
  set_toolCount :: "nat option option"
  set_serverInfo :: "server_info option option"

definition no_patch :: status_patch where
  "no_patch = \<lparr>set_name = None, set_status = None, set_pid = None, set_startTime = None,
     set_error = None, set_toolCount = None, set_serverInfo = None\<rparr>"

definition spread :: "MCPServerStatus \<Rightarrow> status_patch \<Rightarrow> MCPServerStatus" where
  "spread cur p =
     \<lparr>status_name = (case set_name p of None \<Rightarrow> status_name cur | Some v \<Rightarrow> v),
      status = (case set_status p of None \<Rightarrow> status cur | Some v \<Rightarrow> v),
      pid = (case set_pid p of None \<Rightarrow> pid cur | Some v \<Rightarrow> v),
      startTime = (case set_startTime p of None \<Rightarrow> startTime cur | Some v \<Rightarrow> v),
      error = (case set_error p of None \<Rightarrow> error cur | Some v \<Rightarrow> v),
      toolCount = (case set_toolCount p of None \<Rightarrow> toolCount cur | Some v \<Rightarrow> v),
      serverInfo = (case set_serverInfo p of None \<Rightarrow> serverInfo cur | Some v \<Rightarrow> v)\<rparr>"

text \<open>The object literal \<^verbatim>\<open>{ name: serverName, status: 'stopped' }\<close>.\<close>

definition stopped_status :: "string \<Rightarrow> MCPServerStatus" where
  "stopped_status sn =
     \<lparr>status_name = sn, status = STOPPED, pid = None, startTime = None, error = None,
      toolCount = None, serverInfo = None\<rparr>"

record MCPToolCall =
  toolName :: string
  call_args :: any
  call_serverName :: string
  callId :: "string option"

record MCPToolResult =
  result_callId :: "string option"
  success :: bool
  result :: "any option"
  result_error :: "string option"
  duration :: "nat option"

text \<open>
  What \<^verbatim>\<open>getServerInfo\<close> resolves to is of type \<^verbatim>\<open>any\<close>; \<^verbatim>\<open>startServer\<close> reads its
  \<^verbatim>\<open>serverInfo?.name\<close>, \<^verbatim>\<open>serverInfo?.version\<close> and \<^verbatim>\<open>protocolVersion\<close>.
\<close>

record raw_server_info =
  raw_serverInfo :: "(string option \<times> string option) option"
  raw_protocolVersion :: "string option"

datatype MCPEventType =
  server_started | server_stopped | server_error |
  tool_call_started | tool_call_completed | tool_call_failed

text \<open>The payloads the manager puts into the \<^verbatim>\<open>data\<close> of an event.\<close>

datatype event_data =
  StartedData MCPServerConfig nat "raw_server_info option"
| ErrorData string
| NoData
| ToolCallData MCPToolCall
| ToolCallResultData MCPToolCall MCPToolResult
| ToolCallErrorData MCPToolCall string

record MCPEvent =
  event_type :: MCPEventType
  event_serverName :: string
  timestamp :: nat
  event_data :: event_data

section \<open>The protocol client (MCPClient.ts, BrowserMCPClient.ts)\<close>

text \<open>
  The manager talks to its clients through the methods of \<^verbatim>\<open>MCPClient\<close>.  What a call
  of a method does depends on the server at the other end, so a client object is modelled
  by the outcome of each of its methods: \<open>Inl\<close> the error thrown (the promise rejected),
  \<open>Inr\<close> the value returned.  The manager is defined for any such client.
\<close>

record MCPClient =
  client_serverName :: string
  client_config :: MCPServerConfig
  c_connect :: "js_error + unit"
  c_disconnect :: "js_error + unit"
  c_isConnected :: bool
  c_getServerInfo :: "js_error + raw_server_info option"
  c_listTools :: "js_error + MCPTool list"
  c_callTool :: "MCPToolCall \<Rightarrow> js_error + MCPToolResult"

text \<open>
  The class \<^verbatim>\<open>MCPClient\<close> as it stands in MCPClient.ts: \<^verbatim>\<open>connect\<close>, \<^verbatim>\<open>getServerInfo\<close>,
  \<^verbatim>\<open>listTools\<close> and \<^verbatim>\<open>callTool\<close> throw an \<^verbatim>\<open>MCPError\<close>, \<^verbatim>\<open>disconnect\<close> only logs a
  warning, \<^verbatim>\<open>isConnected\<close> returns false.
\<close>

definition new_MCPClient :: "string \<Rightarrow> MCPServerConfig \<Rightarrow> MCPClient" where
  "new_MCPClient sn config =
     \<lparr>client_serverName = sn, client_config = config,
      c_connect = Inl (MCPError
        ''MCPClient.connect() is not supported in browser environment. Use BrowserMCPClient instead.''
        SERVER_CONNECTION_FAILED (Some sn) None),
      c_disconnect = Inr (),
      c_isConnected = False,
      c_getServerInfo = Inl (MCPError
        ''MCPClient methods are not supported in browser environment.''
        SERVER_CONNECTION_FAILED (Some sn) None),
      c_listTools = Inl (MCPError
        ''MCPClient methods are not supported in browser environment.''
        TOOL_CALL_FAILED (Some sn) None),
      c_callTool = (\<lambda>toolCall. Inl (MCPError
        ''MCPClient methods are not supported in browser environment.''
        TOOL_CALL_FAILED (Some sn) None))\<rparr>"

text \<open>
  \<^verbatim>\<open>BrowserMCPClient.listToolsViaHTTP\<close>.  The outcome of \<^verbatim>\<open>fetch\<close> is a rejection or a
  response; \<^verbatim>\<open>response.json()\<close> rejects or gives the parsed body \<^verbatim>\<open>data\<close>, a JSON
  value.  Of \<^verbatim>\<open>data\<close> the code reads \<^verbatim>\<open>data.tools?.map(...)\<close>: a null body raises a
  TypeError, an absent or null \<^verbatim>\<open>tools\<close> gives undefined (and then \<^verbatim>\<open>|| []\<close>), an array
  is mapped, and any other value of \<^verbatim>\<open>tools\<close> has no \<^verbatim>\<open>map\<close> method, which raises a
  TypeError.  Mapping reads \<^verbatim>\<open>tool.name\<close> of each element, which raises a TypeError on
  an element that is null.  (The texts of the TypeErrors are those of V8.  An element
  that is not null is taken to carry a string \<^verbatim>\<open>name\<close>, as the type \<^verbatim>\<open>MCPTool\<close> has it.)
\<close>

record raw_tool =
  raw_name :: string
  raw_description :: "string option"
  raw_inputSchema :: any

datatype tools_element = ElementNull | Element raw_tool

datatype tools_field = ToolsNullish | ToolsArray "tools_element list" | ToolsOther

datatype json_data = DataNull | DataValue tools_field

record http_response =
  ok :: bool
  http_status :: nat
  statusText :: string
  json :: "js_error + json_data"





section \<open>The process manager (MCPProcessManager.ts)\<close>

text \<open>
  An event listener is a callback; the manager calls it inside \<^verbatim>\<open>try\<close>/\<^verbatim>\<open>catch\<close> and
  only logs what it throws, so a listener is modelled by its identity and a call of it by
  an entry of the log \<open>trace\<close>.  The log also records each event passed to
  \<^verbatim>\<open>emitEvent\<close> and each \<^verbatim>\<open>client.callTool\<close> made by the manager, in the order in which
  the code performs them.
\<close>

type_synonym listener = nat

datatype observation =
  Emitted MCPEvent
| Delivered listener MCPEvent
| Dispatched string MCPToolCall

record MCPProcessManager =
  clients :: "(string, MCPClient) js_map"
  serverStatuses :: "(string, MCPServerStatus) js_map"
  eventListeners :: "(string, listener list) js_map"
  healthCheckInterval :: bool
  trace :: "observation list"

text \<open>The constructor: empty maps, and the health-check timer is set.\<close>

definition new_MCPProcessManager :: MCPProcessManager where
  "new_MCPProcessManager =
     \<lparr>clients = [], serverStatuses = [], eventListeners = [], healthCheckInterval = True,
      trace = []\<rparr>"

definition updateServerStatus :: "string \<Rightarrow> status_patch \<Rightarrow> MCPProcessManager \<Rightarrow> MCPProcessManager" where
  "updateServerStatus sn patch m =
     (let currentStatus = (case map_get (serverStatuses m) sn of
                             None \<Rightarrow> stopped_status sn | Some s \<Rightarrow> s);
          newStatus = spread currentStatus patch
      in m\<lparr>serverStatuses := map_set sn newStatus (serverStatuses m)\<rparr>)"

text \<open>
  \<^verbatim>\<open>emitEvent\<close>; \<open>now\<close> is the value of \<^verbatim>\<open>Date.now()\<close>.  The listeners registered for
  \<^verbatim>\<open>'*'\<close> are called first, then those registered for the server.
\<close>

definition emitEvent :: "nat \<Rightarrow> MCPEventType \<Rightarrow> string \<Rightarrow> event_data \<Rightarrow> MCPProcessManager \<Rightarrow> MCPProcessManager" where
  "emitEvent now ty sn d m =
     (let event = \<lparr>event_type = ty, event_serverName = sn, timestamp = now, event_data = d\<rparr>;
          globalListeners = get_or_empty (eventListeners m) ''*'';
          serverListeners = get_or_empty (eventListeners m) sn
      in m\<lparr>trace := trace m @ [Emitted event] @
            map (\<lambda>l. Delivered l event) globalListeners @
            map (\<lambda>l. Delivered l event) serverListeners\<rparr>)"

definition addEventListener :: "string \<Rightarrow> listener \<Rightarrow> MCPProcessManager \<Rightarrow> MCPProcessManager" where
  "addEventListener sn l m =
     m\<lparr>eventListeners := map_set sn (get_or_empty (eventListeners m) sn @ [l]) (eventListeners m)\<rparr>"

text \<open>
  \<^verbatim>\<open>startServer\<close>.  \<open>new_client\<close> is the constructor called by \<^verbatim>\<open>new MCPClient(...)\<close>
  (\<^const>\<open>new_MCPClient\<close> for the class in the repository), and \<open>clock i\<close> is the value of
  the \<open>i\<close>-th call of \<^verbatim>\<open>Date.now()\<close> made during the call.  The result is \<open>Inr ()\<close> when
  the promise resolves and \<open>Inl\<close> the error when it rejects.  After \<^verbatim>\<open>connect\<close> nothing in
  the \<^verbatim>\<open>try\<close> block can throw: the two requests carry their own \<^verbatim>\<open>catch\<close>.
\<close>

definition startServer ::
  "(string \<Rightarrow> MCPServerConfig \<Rightarrow> MCPClient) \<Rightarrow> (nat \<Rightarrow> nat) \<Rightarrow> string \<Rightarrow> MCPServerConfig \<Rightarrow>
   MCPProcessManager \<Rightarrow> (js_error + unit) \<times> MCPProcessManager" where
  "startServer new_client clock sn config m =
     (let m1 = updateServerStatus sn
                 (no_patch\<lparr>set_name := Some sn, set_status := Some STARTING,
                    set_startTime := Some (Some (clock 0))\<rparr>) m;
          client = new_client sn config
      in case c_connect client of
           Inl e \<Rightarrow>
             (let m2 = updateServerStatus sn
                         (no_patch\<lparr>set_name := Some sn, set_status := Some ERROR,
                            set_error := Some (Some (String_error e))\<rparr>) m1;
                  m3 = emitEvent (clock 1) server_error sn (ErrorData (String_error e)) m2
              in (Inl (MCPError (''Failed to start MCP server '' @ sn @ '': '' @ String_error e)
                         SERVER_START_FAILED (Some sn) (Some e)), m3))
         | Inr _ \<Rightarrow>
             (let m2 = m1\<lparr>clients := map_set sn client (clients m1)\<rparr>;
                  info = (case c_getServerInfo client of Inl _ \<Rightarrow> None | Inr i \<Rightarrow> i);
                  tools = (case c_listTools client of Inl _ \<Rightarrow> [] | Inr ts \<Rightarrow> ts);
                  m3 = updateServerStatus sn
                         (no_patch\<lparr>set_name := Some sn, set_status := Some RUNNING,
                            set_startTime := Some (Some (clock 1)),
                            set_toolCount := Some (Some (length tools)),
                            set_serverInfo := Some (case info of
                                None \<Rightarrow> None
                              | Some i \<Rightarrow> Some
                                  \<lparr>info_name = or_default
                                       (case raw_serverInfo i of None \<Rightarrow> None | Some si \<Rightarrow> fst si) sn,
                                   info_version = or_default
                                       (case raw_serverInfo i of None \<Rightarrow> None | Some si \<Rightarrow> snd si)
                                       ''unknown'',
                                   info_protocolVersion =
                                     or_default (raw_protocolVersion i) ''unknown''\<rparr>)\<rparr>) m2;
                  m4 = emitEvent (clock 2) server_started sn
                         (StartedData config (length tools) info) m3
              in (Inr (), m4)))"

definition stopServer ::
  "(nat \<Rightarrow> nat) \<Rightarrow> string \<Rightarrow> MCPProcessManager \<Rightarrow> (js_error + unit) \<times> MCPProcessManager" where
  "stopServer clock sn m =
     (let m1 = updateServerStatus sn
                 (no_patch\<lparr>set_name := Some sn, set_status := Some STOPPING\<rparr>) m;
          finish = (\<lambda>m2.
            (Inr (), emitEvent (clock 0) server_stopped sn NoData
               (updateServerStatus sn
                  (no_patch\<lparr>set_name := Some sn, set_status := Some STOPPED\<rparr>) m2)))
      in case map_get (clients m1) sn of
           None \<Rightarrow> finish m1
         | Some client \<Rightarrow>
             (case c_disconnect client of
                Inl e \<Rightarrow>
                  (Inl (MCPError (''Failed to stop MCP server '' @ sn @ '': '' @ String_error e)
                          SERVER_START_FAILED (Some sn) (Some e)),
                   updateServerStatus sn
                     (no_patch\<lparr>set_name := Some sn, set_status := Some ERROR,
                        set_error := Some (Some (String_error e))\<rparr>) m1)
              | Inr _ \<Rightarrow> finish (m1\<lparr>clients := map_delete sn (clients m1)\<rparr>)))"

text \<open>
  \<^verbatim>\<open>getServerStatus\<close> is a method of the manager, so it is given the manager and returns
  it with the result; the method assigns to nothing.
\<close>

definition getServerStatus :: "string \<Rightarrow> MCPProcessManager \<Rightarrow> MCPServerStatus \<times> MCPProcessManager" where
  "getServerStatus sn m =
     (case map_get (serverStatuses m) sn of
        None \<Rightarrow> (stopped_status sn, m)
      | Some s \<Rightarrow> (s, m))"

definition getAllServerStatuses :: "MCPProcessManager \<Rightarrow> MCPServerStatus list" where
  "getAllServerStatuses m = map_values (serverStatuses m)"

definition not_running :: "string \<Rightarrow> js_error" where
  "not_running sn =
     MCPError (''Server '' @ sn @ '' is not running'') SERVER_CONNECTION_FAILED (Some sn) None"

definition listTools :: "string \<Rightarrow> MCPProcessManager \<Rightarrow> js_error + MCPTool list" where
  "listTools sn m =
     (case map_get (clients m) sn of
        None \<Rightarrow> Inl (not_running sn)
      | Some client \<Rightarrow> c_listTools client)"

definition callTool ::
  "(nat \<Rightarrow> nat) \<Rightarrow> string \<Rightarrow> string \<Rightarrow> any \<Rightarrow> string option \<Rightarrow> MCPProcessManager \<Rightarrow>
   (js_error + MCPToolResult) \<times> MCPProcessManager" where
  "callTool clock sn tn a cid m =
     (case map_get (clients m) sn of
        None \<Rightarrow> (Inl (not_running sn), m)
      | Some client \<Rightarrow>
          (let toolCall = \<lparr>toolName = tn, call_args = a, call_serverName = sn, callId = cid\<rparr>;
               m1 = emitEvent (clock 0) tool_call_started sn (ToolCallData toolCall) m;
               m2 = m1\<lparr>trace := trace m1 @ [Dispatched sn toolCall]\<rparr>
           in case c_callTool client toolCall of
                Inr res \<Rightarrow>
                  (Inr res, emitEvent (clock 1) tool_call_completed sn
                     (ToolCallResultData toolCall res) m2)
              | Inl e \<Rightarrow>
                  (Inl e, emitEvent (clock 1) tool_call_failed sn
                     (ToolCallErrorData toolCall (String_error e)) m2)))"







text \<open>
  What \<^verbatim>\<open>emitEvent\<close> hands to the listeners of a manager, and the types of the events
  emitted in a stretch of the log.
\<close>

definition deliveries :: "MCPProcessManager \<Rightarrow> string \<Rightarrow> MCPEvent \<Rightarrow> observation list" where
  "deliveries m sn event =
     map (\<lambda>l. Delivered l event) (get_or_empty (eventListeners m) ''*'') @
     map (\<lambda>l. Delivered l event) (get_or_empty (eventListeners m) sn)"

fun emitted_types :: "observation list \<Rightarrow> MCPEventType list" where
  "emitted_types [] = []"
| "emitted_types (Emitted e # os) = event_type e # emitted_types os"
| "emitted_types (Delivered l e # os) = emitted_types os"
| "emitted_types (Dispatched sn c # os) = emitted_types os"

subsection \<open>Concrete configurations, clients and managers used as examples\<close>

definition echo_config :: MCPServerConfig where
  "echo_config =
     \<lparr>command = ''node'', args = [''-e'', ''console.log(1)''], env = Some [],
      autoStart = None, timeout = None, cwd = None\<rparr>"

definition invalid_config :: MCPServerConfig where
  "invalid_config =
     \<lparr>command = ''invalid-command-that-does-not-exist'', args = [''--invalid''], env = None,
      autoStart = None, timeout = None, cwd = None\<rparr>"

definition tick :: "nat \<Rightarrow> nat" where
  "tick i = 1000 + i"

text \<open>A client whose server answers every request.\<close>

definition live_client :: "string \<Rightarrow> MCPServerConfig \<Rightarrow> MCPClient" where
  "live_client sn config =
     \<lparr>client_serverName = sn, client_config = config,
      c_connect = Inr (), c_disconnect = Inr (), c_isConnected = True,
      c_getServerInfo = Inr None,
      c_listTools = Inr [mk_tool ''echo'' ''Echo input'' sn],
      c_callTool = (\<lambda>toolCall. Inr \<lparr>result_callId = callId toolCall, success = True,
         result = Some (call_args toolCall), result_error = None, duration = Some 1\<rparr>)\<rparr>"

text \<open>A client that connects, and whose \<^verbatim>\<open>disconnect\<close>, \<^verbatim>\<open>listTools\<close> and \<^verbatim>\<open>callTool\<close> fail.\<close>

definition stuck_client :: "string \<Rightarrow> MCPServerConfig \<Rightarrow> MCPClient" where
  "stuck_client sn config =
     (live_client sn config)
       \<lparr>c_disconnect := Inl (JsError PlainError ''kill EPERM''),
        c_listTools := Inl (MCPError ''Failed to list tools: Error: HTTP 500: Internal Server Error''
           TOOL_CALL_FAILED (Some sn) None),
        c_callTool := (\<lambda>toolCall. Inl (MCPError ''Tool call failed: Error: HTTP 500: Internal Server Error''
           TOOL_CALL_FAILED (Some sn) None))\<rparr>"

definition running_manager :: MCPProcessManager where
  "running_manager =
     snd (startServer live_client tick ''echo'' echo_config
            (addEventListener ''*'' 7 new_MCPProcessManager))"

definition stuck_manager :: MCPProcessManager where
  "stuck_manager = snd (startServer stuck_client tick ''echo'' echo_config new_MCPProcessManager)"




section \<open>Properties of the tool registry\<close>

subsection \<open>Auxiliary facts\<close>

lemma findIndex_ge: "findIndex p xs \<ge> -1"
  by (induction xs) (auto simp: Let_def)

lemma findIndex_nonneg_iff: "findIndex p xs \<ge> 0 \<longleftrightarrow> (\<exists>x\<in>set xs. p x)"
  by (induction xs) (auto simp: Let_def)

lemma upsert_Nil: "upsert tool [] = [tool]"
  by (simp add: upsert_def)

lemma upsert_Cons:
  "upsert tool (x # xs) = (if name x = name tool then tool # xs else x # upsert tool xs)"
  using findIndex_ge [of "\<lambda>t. name t = name tool" xs]
  by (auto simp: upsert_def Let_def nat_add_distrib)

lemma set_upsert: "tool \<in> set (upsert tool sts)"
  by (induction sts) (auto simp: upsert_Nil upsert_Cons)

lemma names_upsert:
  "map name (upsert tool sts) =
     (if name tool \<in> set (map name sts) then map name sts else map name sts @ [name tool])"
  by (induction sts) (auto simp: upsert_Nil upsert_Cons)

lemma filter_upsert:
  "distinct (map name sts) \<Longrightarrow> filter (\<lambda>t. name t = name tool) (upsert tool sts) = [tool]"
  by (induction sts) (auto simp: upsert_Nil upsert_Cons filter_empty_conv image_iff)

lemma registerTool_tools: "tools (registerTool tool r) = map_set (toolKey tool) tool (tools r)"
  by (simp add: registerTool_def Let_def)

lemma registerTool_serverTools:
  "serverTools (registerTool tool r) =
     map_set (or_default (serverName tool) ''unknown'')
       (upsert tool (get_or_empty (serverTools r) (or_default (serverName tool) ''unknown'')))
       (serverTools r)"
  by (simp add: registerTool_def Let_def upsert_def)

lemma map_get_set: "map_get (map_set k v m) k' = (if k' = k then Some v else map_get m k')"
  by (simp add: map_get_def map_set_def update_conv')

lemma map_get_delete: "map_get (map_delete k m) k' = (if k' = k then None else map_get m k')"
  by (simp add: map_get_def map_delete_def delete_conv')

lemma get_or_empty_set:
  "get_or_empty (map_set k v m) k' = (if k' = k then v else get_or_empty m k')"
  by (simp add: get_or_empty_def map_get_set)

lemma get_or_empty_delete:
  "get_or_empty (map_delete k m) k' = (if k' = k then [] else get_or_empty m k')"
  by (simp add: get_or_empty_def map_get_delete)

lemma fold_map_delete:
  "fold (\<lambda>tool m. map_delete (f tool) m) ts al = filter (\<lambda>p. fst p \<notin> f ` set ts) al"
proof (induction ts arbitrary: al)
  case Nil
  show ?case by simp
next
  case (Cons t ts)
  have "map_delete (f t) al = filter (\<lambda>p. fst p \<noteq> f t) al"
    by (auto simp: map_delete_def AList.delete_eq intro: filter_cong)
  then show ?case
    using Cons.IH [of "map_delete (f t) al"] by (auto intro: filter_cong)
qed

lemma clearServerTools_tools:
  "tools (clearServerTools sn r) =
     filter (\<lambda>p. fst p \<notin> (\<lambda>tool. sn @ '':'' @ name tool) ` set (get_or_empty (serverTools r) sn)) (tools r)"
  by (simp add: clearServerTools_def Let_def fold_map_delete)

lemma clearServerTools_serverTools:
  "serverTools (clearServerTools sn r) = map_delete sn (serverTools r)"
  by (simp add: clearServerTools_def Let_def)

lemma map_set_mem: "(k, v) \<in> set (map_set k v m)"
  by (rule map_of_SomeD) (simp add: map_set_def update_conv')

lemma categorizeToolByName_range: "categorizeToolByName lower n \<in> set category_names"
  by (simp add: categorizeToolByName_def category_names_def Let_def)

lemma map_set_keys:
  "k \<in> set (map fst m) \<Longrightarrow> map fst (map_set k v m) = map fst m"
  by (simp add: map_set_def update_keys)

lemma map_get_in_keys: "k \<in> set (map fst m) \<Longrightarrow> \<exists>v. map_get m k = Some v"
  by (induction m) (auto simp: map_get_def)

lemma push_bucket:
  "distinct (map fst cs) \<Longrightarrow> map_get cs k = Some v \<Longrightarrow>
   map_set k (v @ [x]) cs = map (\<lambda>p. (fst p, if fst p = k then snd p @ [x] else snd p)) cs"
proof (induction cs)
  case Nil
  then show ?case by (simp add: map_get_def)
next
  case (Cons p ps)
  show ?case
  proof (cases "fst p = k")
    case True
    with Cons.prems have "k \<notin> fst ` set ps" and "snd p = v"
      by (auto simp: map_get_def)
    then have "map (\<lambda>p. (fst p, if fst p = k then snd p @ [x] else snd p)) ps = ps"
      by (intro map_idI) (auto simp: image_iff)
    with True \<open>snd p = v\<close> show ?thesis by (simp add: map_set_def)
  next
    case False
    with Cons show ?thesis by (simp add: map_set_def map_get_def)
  qed
qed

lemma categorize_each_buckets:
  assumes "map fst cs = category_names"
  shows "categorize_each lower ts cs =
           Inr (map (\<lambda>p. (fst p,
                  snd p @ filter (\<lambda>t. categorizeToolByName lower (name t) = fst p) ts)) cs)"
  using assms
proof (induction ts arbitrary: cs)
  case Nil
  then show ?case by simp
next
  case (Cons tool rest)
  let ?c = "categorizeToolByName lower (name tool)"
  let ?cs1 = "map (\<lambda>p. (fst p, if fst p = ?c then snd p @ [tool] else snd p)) cs"
  have mem: "?c \<in> set (map fst cs)"
    using Cons.prems categorizeToolByName_range by simp
  from map_get_in_keys [OF mem] obtain ts0 where ts0: "map_get cs ?c = Some ts0"
    by (elim exE)
  have dist: "distinct (map fst cs)"
    using Cons.prems by (simp add: category_names_def)
  have push: "push_category ?c tool cs = Inr ?cs1"
    using push_bucket [OF dist ts0, of tool] by (simp add: push_category_def ts0)
  have keys1: "map fst ?cs1 = category_names"
    using Cons.prems by (simp add: comp_def)
  show ?case
    by (simp add: push Cons.IH [OF keys1] comp_def)
qed

lemma names_of_filter:
  "map name (filter (\<lambda>t. P (name t)) ts) = filter P (map name ts)"
  by (induction ts) auto

lemma set_map_set: "set (map_set k v m) \<subseteq> insert (k, v) (set m)"
  by (induction m) (auto simp: map_set_def)

lemma keys_map_set: "fst ` set (map_set k v m) = insert k (fst ` set m)"
  by (simp add: map_set_def dom_update)

lemma set_map_delete: "set (map_delete k m) \<subseteq> set m"
  by (auto simp: map_delete_def AList.delete_eq)

lemma distinct_map_set: "distinct (map fst m) \<Longrightarrow> distinct (map fst (map_set k v m))"
  by (simp add: map_set_def distinct_update)

lemma distinct_map_delete: "distinct (map fst m) \<Longrightarrow> distinct (map fst (map_delete k m))"
  by (simp add: map_delete_def distinct_delete)

lemma distinct_names_upsert:
  "distinct (map name sts) \<Longrightarrow> distinct (map name (upsert tool sts))"
  by (simp add: names_upsert)

lemma registerTool_well_formed:
  assumes "well_formed r"
  shows "well_formed (registerTool tool r)"
  using assms
  by (simp add: well_formed_def registerTool_tools registerTool_serverTools
      distinct_map_set get_or_empty_set distinct_names_upsert)

lemma clearServerTools_well_formed:
  assumes "well_formed r"
  shows "well_formed (clearServerTools sn r)"
  using assms
  by (simp add: well_formed_def clearServerTools_tools clearServerTools_serverTools
      distinct_map_delete get_or_empty_delete distinct_map_filter)

lemma reachable_well_formed: "reachable P r \<Longrightarrow> well_formed r"
proof (induction rule: reachable.induct)
  case reach_new
  show ?case by (simp add: well_formed_def MCPToolRegistry_new_def get_or_empty_def map_get_def)
next
  case (reach_register r tool)
  then show ?case by (simp add: registerTool_well_formed)
next
  case (reach_clear r sn)
  then show ?case by (simp add: clearServerTools_well_formed)
next
  case (reach_clear_all r)
  show ?case by (simp add: well_formed_def clearAllTools_def get_or_empty_def map_get_def)
qed

lemma filter_key_map_set:
  "distinct (map fst m) \<Longrightarrow> filter (\<lambda>p. fst p = k) (map_set k v m) = [(k, v)]"
  by (induction m) (auto simp: map_set_def filter_empty_conv image_iff)

lemma map_set_twice: "map_set k v (map_set k v' m) = map_set k v m"
  by (simp add: map_set_def)

lemma length_map_set_present:
  "k \<in> fst ` set m \<Longrightarrow> length (map_set k v m) = length m"
  by (induction m) (auto simp: map_set_def)

lemma colon_free_prefix:
  "CHR '':'' \<notin> set a \<Longrightarrow> CHR '':'' \<notin> set b \<Longrightarrow> a @ CHR '':'' # x = b @ CHR '':'' # y \<Longrightarrow> a = b"
proof (induction a arbitrary: b)
  case Nil
  then show ?case by (cases b) auto
next
  case (Cons c a)
  then show ?case by (cases b) auto
qed

lemma get_or_empty_nonempty: "get_or_empty m k \<noteq> [] \<Longrightarrow> k \<in> fst ` set m"
  by (auto simp: get_or_empty_def map_get_def split: option.splits dest!: map_of_SomeD intro: rev_image_eqI)

lemma names_upsert_mono: "name ` set sts \<subseteq> name ` set (upsert tool sts)"
  using names_upsert [of tool sts]
  by (metis (no_types, lifting) list.set_map set_append subset_refl sup_ge1)

lemma valid_owner_group:
  "valid_owner tool \<Longrightarrow> CHR '':'' \<notin> set (or_default (serverName tool) ''unknown'')"
  by (auto simp: valid_owner_def or_default_def split: option.splits)

lemma valid_owner_Some:
  "valid_owner tool \<Longrightarrow> serverName tool = Some s \<Longrightarrow> or_default (serverName tool) ''unknown'' = s"
  by (simp add: valid_owner_def or_default_def)

lemma registerTool_keyed:
  assumes inv: "keyed r" and ok: "valid_owner tool"
  shows "keyed (registerTool tool r)"
proof -
  let ?g = "or_default (serverName tool) ''unknown''"
  let ?grp = "upsert tool (get_or_empty (serverTools r) ?g)"
  have groups: "\<forall>g \<in> fst ` set (serverTools (registerTool tool r)). CHR '':'' \<notin> set g"
    using inv valid_owner_group [OF ok]
    by (auto simp: keyed_def registerTool_serverTools keys_map_set)
  have entries: "fst p = toolKey (snd p) \<and> valid_owner (snd p) \<and>
        (\<forall>s. serverName (snd p) = Some s \<longrightarrow>
           name (snd p) \<in> name ` set (get_or_empty (serverTools (registerTool tool r)) s))"
    if mem: "p \<in> set (tools (registerTool tool r))" for p
  proof (cases "p = (toolKey tool, tool)")
    case True
    have "name tool \<in> name ` set (get_or_empty (serverTools (registerTool tool r)) s)"
      if "serverName tool = Some s" for s
      using valid_owner_Some [OF ok that]
      by (simp add: registerTool_serverTools get_or_empty_set set_upsert)
    with True ok show ?thesis by simp
  next
    case False
    with mem have old: "p \<in> set (tools r)"
      using set_map_set [of "toolKey tool" tool "tools r"] by (auto simp: registerTool_tools)
    have "name (snd p) \<in> name ` set (get_or_empty (serverTools (registerTool tool r)) s)"
      if "serverName (snd p) = Some s" for s
    proof -
      have "name (snd p) \<in> name ` set (get_or_empty (serverTools r) s)"
        using inv old that by (auto simp: keyed_def)
      then show ?thesis
        using names_upsert_mono [of "get_or_empty (serverTools r) ?g" tool]
        by (auto simp: registerTool_serverTools get_or_empty_set)
    qed
    with inv old show ?thesis by (auto simp: keyed_def)
  qed
  from groups entries show ?thesis unfolding keyed_def by blast
qed

lemma clearServerTools_keyed:
  assumes inv: "keyed r"
  shows "keyed (clearServerTools sn r)"
proof -
  have groups: "\<forall>g \<in> fst ` set (serverTools (clearServerTools sn r)). CHR '':'' \<notin> set g"
    using inv set_map_delete [of sn "serverTools r"]
    by (auto simp: keyed_def clearServerTools_serverTools)
  have entries: "fst p = toolKey (snd p) \<and> valid_owner (snd p) \<and>
        (\<forall>s. serverName (snd p) = Some s \<longrightarrow>
           name (snd p) \<in> name ` set (get_or_empty (serverTools (clearServerTools sn r)) s))"
    if mem: "p \<in> set (tools (clearServerTools sn r))" for p
  proof -
    from mem have old: "p \<in> set (tools r)"
      and kept: "fst p \<notin> (\<lambda>tool. sn @ '':'' @ name tool) ` set (get_or_empty (serverTools r) sn)"
      by (auto simp: clearServerTools_tools)
    have key: "fst p = toolKey (snd p)" and ok: "valid_owner (snd p)"
      using inv old by (auto simp: keyed_def)
    have "name (snd p) \<in> name ` set (get_or_empty (serverTools (clearServerTools sn r)) s)"
      if owner: "serverName (snd p) = Some s" for s
    proof -
      have in_group: "name (snd p) \<in> name ` set (get_or_empty (serverTools r) s)"
        using inv old owner by (auto simp: keyed_def)
      have "s \<noteq> sn"
      proof
        assume "s = sn"
        with in_group obtain t where "t \<in> set (get_or_empty (serverTools r) sn)"
          and "name t = name (snd p)" by auto
        then have "sn @ '':'' @ name (snd p) \<in>
            (\<lambda>tool. sn @ '':'' @ name tool) ` set (get_or_empty (serverTools r) sn)"
          by (metis (mono_tags, lifting) image_eqI)
        moreover have "fst p = sn @ '':'' @ name (snd p)"
          using key owner \<open>s = sn\<close> by (simp add: toolKey_def template_str_def)
        ultimately show False using kept by simp
      qed
      with in_group show ?thesis
        by (simp add: clearServerTools_serverTools get_or_empty_delete)
    qed
    with key ok show ?thesis by simp
  qed
  from groups entries show ?thesis unfolding keyed_def by blast
qed

lemma reachable_keyed: "reachable valid_owner r \<Longrightarrow> keyed r"
proof (induction rule: reachable.induct)
  case reach_new
  show ?case by (simp add: keyed_def MCPToolRegistry_new_def)
next
  case (reach_register r tool)
  then show ?case by (simp add: registerTool_keyed)
next
  case (reach_clear r sn)
  then show ?case by (simp add: clearServerTools_keyed)
next
  case (reach_clear_all r)
  show ?case by (simp add: keyed_def clearAllTools_def)
qed

lemma filter_values_of_filter:
  "(\<And>p. p \<in> set al \<Longrightarrow> Q (snd p) \<Longrightarrow> R p) \<Longrightarrow>
   filter Q (map snd (filter R al)) = filter Q (map snd al)"
  by (induction al) auto

lemmas registry_eval =
  MCPToolRegistry_new_def registerTools_def registerTool_def clearServerTools_def
  getServerTools_def getAllTools_def getTool_def toolKey_def template_str_def or_default_def
  get_or_empty_def map_get_def map_set_def map_delete_def map_values_def Let_def mk_tool_def

subsection \<open>Tools without an owner\<close>

text \<open>
  Claim C10.  A tool whose \<^verbatim>\<open>serverName\<close> is undefined is put by \<^verbatim>\<open>registerTool\<close> into the
  group named \<^verbatim>\<open>unknown\<close>, while its key in the flat map starts with the text
  \<^verbatim>\<open>undefined\<close>.  Hence \<^verbatim>\<open>clearServerTools('unknown')\<close> empties the group, and the tool
  is still among \<^verbatim>\<open>getAllTools()\<close> afterwards.
\<close>

theorem undefined_owner_survives_clearServerTools:
  assumes "serverName tool = None"
  shows "tool \<in> set (getServerTools (registerTool tool r) ''unknown'') \<and>
         map_get (tools (registerTool tool r)) (''undefined:'' @ name tool) = Some tool \<and>
         getServerTools (clearServerTools ''unknown'' (registerTool tool r)) ''unknown'' = [] \<and>
         tool \<in> set (getAllTools (clearServerTools ''unknown'' (registerTool tool r)))"
proof -
  have key: "toolKey tool = ''undefined:'' @ name tool"
    using assms by (simp add: toolKey_def template_str_def)
  have grp: "or_default (serverName tool) ''unknown'' = ''unknown''"
    using assms by (simp add: or_default_def)
  have 1: "tool \<in> set (getServerTools (registerTool tool r) ''unknown'')"
    by (simp add: getServerTools_def registerTool_serverTools grp get_or_empty_set set_upsert)
  have 2: "map_get (tools (registerTool tool r)) (''undefined:'' @ name tool) = Some tool"
    by (simp add: registerTool_tools key map_get_set)
  have 3: "getServerTools (clearServerTools ''unknown'' (registerTool tool r)) ''unknown'' = []"
    by (simp add: getServerTools_def clearServerTools_serverTools get_or_empty_delete)
  have "(''undefined:'' @ name tool, tool) \<in> set (tools (registerTool tool r))"
    using map_set_mem [of "toolKey tool" tool "tools r"] by (simp add: registerTool_tools key)
  then have "(''undefined:'' @ name tool, tool) \<in> set (tools (clearServerTools ''unknown'' (registerTool tool r)))"
    by (auto simp: clearServerTools_tools)
  then have 4: "tool \<in> set (getAllTools (clearServerTools ''unknown'' (registerTool tool r)))"
    by (force simp: getAllTools_def map_values_def)
  from 1 2 3 4 show ?thesis by blast
qed

theorem undefined_owner_survives_clearServerTools_witness:
  "serverName orphan = None \<and>
   getServerTools (registerTool orphan MCPToolRegistry_new) ''unknown'' = [orphan] \<and>
   getTool (registerTool orphan MCPToolRegistry_new) ''undefined'' ''echo'' = Some orphan \<and>
   getServerTools (clearServerTools ''unknown'' (registerTool orphan MCPToolRegistry_new)) ''unknown'' = [] \<and>
   getAllTools (clearServerTools ''unknown'' (registerTool orphan MCPToolRegistry_new)) = [orphan]"
  using undefined_owner_survives_clearServerTools [of orphan MCPToolRegistry_new]
  by (simp add: orphan_def MCPToolRegistry_new_def registerTool_def clearServerTools_def
      getServerTools_def getAllTools_def getTool_def toolKey_def template_str_def or_default_def
      get_or_empty_def map_get_def map_set_def map_delete_def map_values_def Let_def)

subsection \<open>Registering the same tool twice\<close>

text \<open>
  Claim C8.  Let \<open>t1\<close> and \<open>t2\<close> have the same \<^verbatim>\<open>serverName\<close> and the same
  \<^verbatim>\<open>name\<close> (whatever their descriptions).  After \<^verbatim>\<open>registerTool(t1)\<close> and then
  \<^verbatim>\<open>registerTool(t2)\<close>, on any registry built by the registry's operations, the flat
  map has exactly one entry under their key and it is \<open>t2\<close>; the group of their server
  has exactly one tool of that name and it is \<open>t2\<close>; and the second call added no
  entry to either.
\<close>

theorem registerTool_twice_one_entry:
  assumes reach: "reachable (\<lambda>tool. True) r"
    and owner: "serverName t1 = serverName t2"
    and same: "name t1 = name t2"
  shows "filter (\<lambda>p. fst p = toolKey t2) (tools (registerTool t2 (registerTool t1 r))) =
           [(toolKey t2, t2)] \<and>
         filter (\<lambda>t. name t = name t2)
           (getServerTools (registerTool t2 (registerTool t1 r))
              (or_default (serverName t2) ''unknown'')) = [t2] \<and>
         length (getAllTools (registerTool t2 (registerTool t1 r))) =
           length (getAllTools (registerTool t1 r)) \<and>
         length (getServerTools (registerTool t2 (registerTool t1 r))
              (or_default (serverName t2) ''unknown'')) =
           length (getServerTools (registerTool t1 r) (or_default (serverName t2) ''unknown''))"
proof -
  let ?r1 = "registerTool t1 r"
  let ?g = "or_default (serverName t2) ''unknown''"
  have wf1: "well_formed ?r1"
    using reach by (simp add: reachable_well_formed registerTool_well_formed)
  have key: "toolKey t1 = toolKey t2"
    using owner same by (simp add: toolKey_def)
  have flat: "filter (\<lambda>p. fst p = toolKey t2) (tools (registerTool t2 ?r1)) = [(toolKey t2, t2)]"
    using wf1 by (simp add: registerTool_tools [of t2] filter_key_map_set well_formed_def)
  have names1: "distinct (map name (get_or_empty (serverTools ?r1) ?g))"
    using wf1 by (simp add: well_formed_def)
  have group: "getServerTools (registerTool t2 ?r1) ?g = upsert t2 (get_or_empty (serverTools ?r1) ?g)"
    by (simp add: getServerTools_def registerTool_serverTools [of t2] get_or_empty_set)
  have one: "filter (\<lambda>t. name t = name t2) (getServerTools (registerTool t2 ?r1) ?g) = [t2]"
    unfolding group using names1 by (rule filter_upsert)
  have "toolKey t2 \<in> fst ` set (tools ?r1)"
    using map_set_mem [of "toolKey t1" t1 "tools r"]
    by (simp add: registerTool_tools [of t1] key [symmetric] image_iff) force
  then have len_flat: "length (getAllTools (registerTool t2 ?r1)) = length (getAllTools ?r1)"
    by (simp add: getAllTools_def map_values_def registerTool_tools [of t2] length_map_set_present)
  have "t1 \<in> set (get_or_empty (serverTools ?r1) ?g)"
    by (simp add: registerTool_serverTools [of t1] owner get_or_empty_set set_upsert)
  then have "name t1 \<in> name ` set (get_or_empty (serverTools ?r1) ?g)"
    by (rule imageI)
  then have "name t2 \<in> set (map name (get_or_empty (serverTools ?r1) ?g))"
    by (simp add: same)
  then have "map name (upsert t2 (get_or_empty (serverTools ?r1) ?g)) =
      map name (get_or_empty (serverTools ?r1) ?g)"
    by (simp add: names_upsert)
  then have "length (upsert t2 (get_or_empty (serverTools ?r1) ?g)) =
      length (get_or_empty (serverTools ?r1) ?g)"
    by (metis length_map)
  then have len_group: "length (getServerTools (registerTool t2 ?r1) ?g) =
      length (getServerTools ?r1 ?g)"
    unfolding group by (simp add: getServerTools_def)
  from flat one len_flat len_group show ?thesis by simp
qed

theorem registerTool_twice_one_entry_witness:
  "reachable (\<lambda>tool. True) MCPToolRegistry_new \<and>
   serverName (mk_tool ''test-tool'' ''A test tool'' ''test-server'') =
     serverName (mk_tool ''test-tool'' ''A better test tool'' ''test-server'') \<and>
   name (mk_tool ''test-tool'' ''A test tool'' ''test-server'') =
     name (mk_tool ''test-tool'' ''A better test tool'' ''test-server'') \<and>
   description (mk_tool ''test-tool'' ''A test tool'' ''test-server'') \<noteq>
     description (mk_tool ''test-tool'' ''A better test tool'' ''test-server'') \<and>
   tools (registerTool (mk_tool ''test-tool'' ''A better test tool'' ''test-server'')
       (registerTool (mk_tool ''test-tool'' ''A test tool'' ''test-server'') MCPToolRegistry_new)) =
     [(''test-server:test-tool'', mk_tool ''test-tool'' ''A better test tool'' ''test-server'')] \<and>
   getServerTools (registerTool (mk_tool ''test-tool'' ''A better test tool'' ''test-server'')
       (registerTool (mk_tool ''test-tool'' ''A test tool'' ''test-server'') MCPToolRegistry_new))
       ''test-server'' =
     [mk_tool ''test-tool'' ''A better test tool'' ''test-server'']"
proof -
  have r: "reachable (\<lambda>tool. True) MCPToolRegistry_new"
    by (rule reach_new)
  show ?thesis
    using r registerTool_twice_one_entry [OF r,
        of "mk_tool ''test-tool'' ''A test tool'' ''test-server''"
           "mk_tool ''test-tool'' ''A better test tool'' ''test-server''"]
    by (simp add: registry_eval)
qed

subsection \<open>Categories\<close>

text \<open>
  Claim C9.  The category of a tool is a function of its name (and of the engine's
  \<^verbatim>\<open>toLowerCase\<close>) with values in the five categories, and \<^verbatim>\<open>getToolsByCategory\<close>
  returns, without raising, the five buckets in their order, the bucket of a category
  holding exactly the tools of \<^verbatim>\<open>getAllTools()\<close> whose name has that category, in their
  order.  In particular, for a registry whose tools are named \<^verbatim>\<open>file-read\<close>,
  \<^verbatim>\<open>http-get\<close>, \<^verbatim>\<open>json-parse\<close>, \<^verbatim>\<open>system-info\<close> and \<^verbatim>\<open>mystery-tool\<close> (in any
  order), the buckets \<^verbatim>\<open>filesystem\<close>, \<^verbatim>\<open>network\<close>, \<^verbatim>\<open>data\<close>, \<^verbatim>\<open>system\<close> and
  \<^verbatim>\<open>other\<close> hold the tool of that name, one each.
\<close>

theorem categorize_deterministic_buckets:
  assumes low: "ascii_lowering lower"
    and names: "mset (map name (getAllTools r)) =
           mset [''file-read'', ''http-get'', ''json-parse'', ''system-info'', ''mystery-tool'']"
  shows "categorizeToolByName lower n \<in>
           {''filesystem'', ''network'', ''data'', ''system'', ''other''} \<and>
         getToolsByCategory lower r' =
           Inr (map (\<lambda>c. (c, filter (\<lambda>t. categorizeToolByName lower (name t) = c)
                                  (getAllTools r')))
                  [''filesystem'', ''network'', ''data'', ''system'', ''other'']) \<and>
         (\<exists>cs. getToolsByCategory lower r = Inr cs \<and>
            map (\<lambda>(c, ts). (c, map name ts)) cs =
              [(''filesystem'', [''file-read'']), (''network'', [''http-get'']),
               (''data'', [''json-parse'']), (''system'', [''system-info'']),
               (''other'', [''mystery-tool''])] \<and>
            map (\<lambda>(c, ts). (c, length ts)) cs =
              [(''filesystem'', 1), (''network'', 1), (''data'', 1), (''system'', 1), (''other'', 1)])"
proof -
  have range: "categorizeToolByName lower n \<in>
           {''filesystem'', ''network'', ''data'', ''system'', ''other''}"
    using categorizeToolByName_range [of lower n] by (simp add: category_names_def)
  have keys0: "map fst empty_categories = category_names"
    by (simp add: empty_categories_def category_names_def)
  have general: "getToolsByCategory lower q =
           Inr (map (\<lambda>c. (c, filter (\<lambda>t. categorizeToolByName lower (name t) = c)
                                  (getAllTools q)))
                  [''filesystem'', ''network'', ''data'', ''system'', ''other''])" for q
    unfolding getToolsByCategory_def categorize_each_buckets [OF keys0]
    by (simp add: empty_categories_def)
  have lowered: "lower s = s"
    if "s \<in> set [''file-read'', ''http-get'', ''json-parse'', ''system-info'', ''mystery-tool'']"
    for s
  proof -
    from that have "\<forall>c \<in> set s. (of_char c :: nat) < 128" and "map lower_char s = s"
      by (auto simp: lower_char_def)
    with low show ?thesis by (simp add: ascii_lowering_def)
  qed
  have cat: "categorizeToolByName lower ''file-read'' = ''filesystem''"
    "categorizeToolByName lower ''http-get'' = ''network''"
    "categorizeToolByName lower ''json-parse'' = ''data''"
    "categorizeToolByName lower ''system-info'' = ''system''"
    "categorizeToolByName lower ''mystery-tool'' = ''other''"
    by (simp_all add: categorizeToolByName_def lowered)
  have bucket: "map name (filter (\<lambda>t. categorizeToolByName lower (name t) = c) (getAllTools r)) =
      [x]"
    if "filter_mset (\<lambda>n. categorizeToolByName lower n = c)
          (mset [''file-read'', ''http-get'', ''json-parse'', ''system-info'', ''mystery-tool'']) =
        {#x#}" for c x
  proof -
    have "mset (map name (filter (\<lambda>t. categorizeToolByName lower (name t) = c) (getAllTools r))) =
        filter_mset (\<lambda>n. categorizeToolByName lower n = c) (mset (map name (getAllTools r)))"
      unfolding names_of_filter [of "\<lambda>n. categorizeToolByName lower n = c"]
      by (simp only: mset_filter)
    also have "\<dots> = {#x#}"
      unfolding names by (rule that)
    finally show ?thesis by (simp only: mset_single_iff)
  qed
  have b1: "map name (filter (\<lambda>t. categorizeToolByName lower (name t) = ''filesystem'')
      (getAllTools r)) = [''file-read'']"
    by (rule bucket) (simp add: cat)
  have b2: "map name (filter (\<lambda>t. categorizeToolByName lower (name t) = ''network'')
      (getAllTools r)) = [''http-get'']"
    by (rule bucket) (simp add: cat)
  have b3: "map name (filter (\<lambda>t. categorizeToolByName lower (name t) = ''data'')
      (getAllTools r)) = [''json-parse'']"
    by (rule bucket) (simp add: cat)
  have b4: "map name (filter (\<lambda>t. categorizeToolByName lower (name t) = ''system'')
      (getAllTools r)) = [''system-info'']"
    by (rule bucket) (simp add: cat)
  have b5: "map name (filter (\<lambda>t. categorizeToolByName lower (name t) = ''other'')
      (getAllTools r)) = [''mystery-tool'']"
    by (rule bucket) (simp add: cat)
  have l: "length ts = length (map name ts)" for ts :: "MCPTool list"
    by simp
  have five: "\<exists>cs. getToolsByCategory lower r = Inr cs \<and>
            map (\<lambda>(c, ts). (c, map name ts)) cs =
              [(''filesystem'', [''file-read'']), (''network'', [''http-get'']),
               (''data'', [''json-parse'']), (''system'', [''system-info'']),
               (''other'', [''mystery-tool''])] \<and>
            map (\<lambda>(c, ts). (c, length ts)) cs =
              [(''filesystem'', 1), (''network'', 1), (''data'', 1), (''system'', 1), (''other'', 1)]"
    unfolding general [of r]
    by (simp add: b1 b2 b3 b4 b5 l [of "filter p (getAllTools r)" for p] del: length_map)
  from range general [of r'] five show ?thesis by (intro conjI)
qed

theorem categorize_deterministic_buckets_witness:
  "ascii_lowering (map lower_char) \<and>
   mset (map name (getAllTools category_test_registry)) =
     mset [''file-read'', ''http-get'', ''json-parse'', ''system-info'', ''mystery-tool''] \<and>
   categorizeToolByName (map lower_char) ''HTTP-Get'' = ''network'' \<and>
   getToolsByCategory (map lower_char) clear_test_registry =
     Inr [(''filesystem'', []), (''network'', []), (''data'', []), (''system'', []),
          (''other'', getAllTools clear_test_registry)] \<and>
   getToolsByCategory (map lower_char) category_test_registry =
     Inr [(''filesystem'', [mk_tool ''file-read'' [] ''fs'']),
          (''network'', [mk_tool ''http-get'' [] ''net'']),
          (''data'', [mk_tool ''json-parse'' [] ''data'']),
          (''system'', [mk_tool ''system-info'' [] ''sys'']),
          (''other'', [mk_tool ''mystery-tool'' [] ''other''])]"
proof -
  have low: "ascii_lowering (map lower_char)"
    by (simp add: ascii_lowering_def)
  have h: "mset (map name (getAllTools category_test_registry)) =
     mset [''file-read'', ''http-get'', ''json-parse'', ''system-info'', ''mystery-tool'']"
    by (simp add: category_test_registry_def registry_eval)
  have up: "categorizeToolByName (map lower_char) ''HTTP-Get'' = ''network''"
    by code_simp
  have all: "getAllTools category_test_registry =
     [mk_tool ''file-read'' [] ''fs'', mk_tool ''http-get'' [] ''net'',
       mk_tool ''json-parse'' [] ''data'', mk_tool ''system-info'' [] ''sys'',
       mk_tool ''mystery-tool'' [] ''other'']"
    by (simp add: category_test_registry_def registry_eval)
  have all': "getAllTools clear_test_registry =
     [mk_tool ''tool1'' [] ''server1'', mk_tool ''tool2'' [] ''server1'',
      mk_tool ''tool3'' [] ''server2'']"
    by (simp add: clear_test_registry_def registry_eval)
  have names: "name (mk_tool n d s) = n" for n d s
    by (simp add: mk_tool_def)
  have cat: "categorizeToolByName (map lower_char) ''file-read'' = ''filesystem''"
    "categorizeToolByName (map lower_char) ''http-get'' = ''network''"
    "categorizeToolByName (map lower_char) ''json-parse'' = ''data''"
    "categorizeToolByName (map lower_char) ''system-info'' = ''system''"
    "categorizeToolByName (map lower_char) ''mystery-tool'' = ''other''"
    "categorizeToolByName (map lower_char) ''tool1'' = ''other''"
    "categorizeToolByName (map lower_char) ''tool2'' = ''other''"
    "categorizeToolByName (map lower_char) ''tool3'' = ''other''"
    by (simp_all add: categorizeToolByName_def lower_char_def)
  show ?thesis
    using low h up
      categorize_deterministic_buckets [OF low h, of "''HTTP-Get''" clear_test_registry]
      categorize_deterministic_buckets [OF low h, of "''HTTP-Get''" category_test_registry]
    by (simp add: all all' names cat)
qed

subsection \<open>Clearing the tools of a server\<close>

text \<open>
  Claim C7, as stated, fails: the tool \<^verbatim>\<open>b:c\<close> of server \<^verbatim>\<open>a\<close> and the tool \<^verbatim>\<open>c\<close> of
  server \<^verbatim>\<open>a:b\<close> have the same key \<^verbatim>\<open>a:b:c\<close>, so clearing server \<^verbatim>\<open>a\<close> removes the
  tool of server \<^verbatim>\<open>a:b\<close> from \<^verbatim>\<open>getAllTools()\<close>.  And a tool whose server name is the
  empty string is grouped under \<^verbatim>\<open>unknown\<close> (the empty string is falsy), so clearing the
  server with the empty name leaves it in \<^verbatim>\<open>getAllTools()\<close>.
\<close>

theorem clearServerTools_frame_counterexample:
  "serverName (mk_tool ''c'' [] ''a:b'') = Some ''a:b'' \<and>
   getAllTools colliding_registry = [mk_tool ''c'' [] ''a:b''] \<and>
   getAllTools (clearServerTools ''a'' colliding_registry) = [] \<and>
   serverName (mk_tool ''x'' [] []) = Some [] \<and>
   getAllTools (clearServerTools [] nameless_registry) = [mk_tool ''x'' [] []]"
  by (simp add: colliding_registry_def nameless_registry_def registry_eval)

text \<open>
  Claim C7, amended.  On a registry built from tools whose server name, when they have
  one, is not empty and holds no colon: after \<^verbatim>\<open>clearServerTools(s)\<close> no tool owned by
  \<open>s\<close> is in \<^verbatim>\<open>getAllTools()\<close>, \<^verbatim>\<open>getServerTools(s)\<close> is empty, and for every other
  server \<open>s'\<close> both the tools owned by \<open>s'\<close> in \<^verbatim>\<open>getAllTools()\<close> and
  \<^verbatim>\<open>getServerTools(s')\<close> are as before.
\<close>

theorem clearServerTools_frame:
  assumes reach: "reachable valid_owner r"
  shows "(\<forall>t \<in> set (getAllTools (clearServerTools s r)). serverName t \<noteq> Some s) \<and>
         getServerTools (clearServerTools s r) s = [] \<and>
         (\<forall>s'. s' \<noteq> s \<longrightarrow>
            filter (\<lambda>t. serverName t = Some s') (getAllTools (clearServerTools s r)) =
              filter (\<lambda>t. serverName t = Some s') (getAllTools r) \<and>
            getServerTools (clearServerTools s r) s' = getServerTools r s')"
proof -
  have inv: "keyed r" using reach by (rule reachable_keyed)
  have inv': "keyed (clearServerTools s r)" using inv by (rule clearServerTools_keyed)
  let ?D = "(\<lambda>tool. s @ '':'' @ name tool) ` set (get_or_empty (serverTools r) s)"
  have gone: "serverName t \<noteq> Some s" if "t \<in> set (getAllTools (clearServerTools s r))" for t
  proof
    assume owner: "serverName t = Some s"
    from that obtain k where mem: "(k, t) \<in> set (tools (clearServerTools s r))"
      by (auto simp: getAllTools_def map_values_def)
    with inv' owner have "name t \<in> name ` set (get_or_empty (serverTools (clearServerTools s r)) s)"
      by (force simp: keyed_def)
    then show False
      by (simp add: clearServerTools_serverTools get_or_empty_delete)
  qed
  have group: "getServerTools (clearServerTools s r) s = []"
    by (simp add: getServerTools_def clearServerTools_serverTools get_or_empty_delete)
  have others: "getServerTools (clearServerTools s r) s' = getServerTools r s'" if "s' \<noteq> s" for s'
    using that by (simp add: getServerTools_def clearServerTools_serverTools get_or_empty_delete)
  have kept: "fst p \<notin> ?D" if mem: "p \<in> set (tools r)" and owner: "serverName (snd p) = Some s'"
    and neq: "s' \<noteq> s" for p s'
  proof
    assume "fst p \<in> ?D"
    then obtain t where t: "t \<in> set (get_or_empty (serverTools r) s)"
      and k: "fst p = s @ '':'' @ name t" by auto
    from t have "s \<in> fst ` set (serverTools r)"
      by (intro get_or_empty_nonempty) auto
    with inv have cs: "CHR '':'' \<notin> set s" unfolding keyed_def by blast
    from inv mem owner have cs': "CHR '':'' \<notin> set s'" and key: "fst p = s' @ '':'' @ name (snd p)"
      by (auto simp: keyed_def valid_owner_def toolKey_def template_str_def)
    from key k have "s' @ CHR '':'' # name (snd p) = s @ CHR '':'' # name t" by simp
    with cs' cs have "s' = s" by (rule colon_free_prefix)
    with neq show False by simp
  qed
  have frame: "filter (\<lambda>t. serverName t = Some s') (getAllTools (clearServerTools s r)) =
              filter (\<lambda>t. serverName t = Some s') (getAllTools r)" if "s' \<noteq> s" for s'
    unfolding getAllTools_def map_values_def clearServerTools_tools
    by (rule filter_values_of_filter) (use kept that in auto)
  from gone group others frame show ?thesis by simp
qed

theorem clearServerTools_frame_witness:
  "reachable valid_owner clear_test_registry \<and>
   getAllTools clear_test_registry =
     [mk_tool ''tool1'' [] ''server1'', mk_tool ''tool2'' [] ''server1'', mk_tool ''tool3'' [] ''server2''] \<and>
   getAllTools (clearServerTools ''server1'' clear_test_registry) = [mk_tool ''tool3'' [] ''server2''] \<and>
   getServerTools (clearServerTools ''server1'' clear_test_registry) ''server1'' = [] \<and>
   getServerTools (clearServerTools ''server1'' clear_test_registry) ''server2'' =
     [mk_tool ''tool3'' [] ''server2'']"
proof -
  have ok: "valid_owner (mk_tool n d ''server1'')" "valid_owner (mk_tool n d ''server2'')" for n d
    by (simp_all add: valid_owner_def mk_tool_def)
  have r: "reachable valid_owner clear_test_registry"
    unfolding clear_test_registry_def registerTools_def fold_simps id_apply comp_apply
    by (intro reach_register reach_new ok)
  show ?thesis
    using r clearServerTools_frame [OF r, of "''server1''"]
    by (simp add: clear_test_registry_def registry_eval)
qed

section \<open>Properties of the process manager\<close>

text \<open>
  Each operation is taken as one step: what other calls do between its \<^verbatim>\<open>await\<close>s is
  not part of the model, nor are restart, the resources and the health-check timer, about
  which nothing is stated below.
\<close>

subsection \<open>Auxiliary facts\<close>

lemmas manager_eval =
  startServer_def stopServer_def callTool_def listTools_def getServerStatus_def
  getAllServerStatuses_def updateServerStatus_def emitEvent_def addEventListener_def
  new_MCPProcessManager_def spread_def no_patch_def stopped_status_def String_error_def
  not_running_def tick_def get_or_empty_def map_get_def map_set_def map_delete_def
  map_values_def Let_def

lemma String_error_nonempty: "String_error e \<noteq> []"
  by (cases e rule: error_name.cases) (simp_all add: String_error_def)

lemma serverStatuses_updateServerStatus:
  "map_get (serverStatuses (updateServerStatus sn p m)) sn =
     Some (spread (case map_get (serverStatuses m) sn of None \<Rightarrow> stopped_status sn | Some s \<Rightarrow> s) p)"
  by (simp add: updateServerStatus_def Let_def map_get_set)

lemma clients_updateServerStatus [simp]: "clients (updateServerStatus sn p m) = clients m"
  by (simp add: updateServerStatus_def Let_def)

lemma trace_updateServerStatus [simp]: "trace (updateServerStatus sn p m) = trace m"
  by (simp add: updateServerStatus_def Let_def)

lemma eventListeners_updateServerStatus [simp]:
  "eventListeners (updateServerStatus sn p m) = eventListeners m"
  by (simp add: updateServerStatus_def Let_def)

lemma serverStatuses_emitEvent [simp]: "serverStatuses (emitEvent now ty sn d m) = serverStatuses m"
  by (simp add: emitEvent_def Let_def)

lemma clients_emitEvent [simp]: "clients (emitEvent now ty sn d m) = clients m"
  by (simp add: emitEvent_def Let_def)

lemma eventListeners_emitEvent [simp]: "eventListeners (emitEvent now ty sn d m) = eventListeners m"
  by (simp add: emitEvent_def Let_def)

lemma trace_emitEvent:
  "trace (emitEvent now ty sn d m) =
     trace m @
     Emitted \<lparr>event_type = ty, event_serverName = sn, timestamp = now, event_data = d\<rparr> #
     deliveries m sn \<lparr>event_type = ty, event_serverName = sn, timestamp = now, event_data = d\<rparr>"
  by (simp add: emitEvent_def deliveries_def Let_def)

lemma emitted_types_append: "emitted_types (xs @ ys) = emitted_types xs @ emitted_types ys"
  by (induction xs rule: emitted_types.induct) simp_all

lemma emitted_types_deliveries: "emitted_types (deliveries m sn e) = []"
proof -
  have "emitted_types (map (\<lambda>l. Delivered l e) ls) = []" for ls
    by (induction ls) simp_all
  then show ?thesis by (simp add: deliveries_def emitted_types_append)
qed

lemma startServer_connect_failed:
  assumes "c_connect (new_client sn config) = Inl e"
  shows "startServer new_client clock sn config m =
     (Inl (MCPError (''Failed to start MCP server '' @ sn @ '': '' @ String_error e)
             SERVER_START_FAILED (Some sn) (Some e)),
      emitEvent (clock 1) server_error sn (ErrorData (String_error e))
        (updateServerStatus sn
           (no_patch\<lparr>set_name := Some sn, set_status := Some ERROR,
              set_error := Some (Some (String_error e))\<rparr>)
           (updateServerStatus sn
              (no_patch\<lparr>set_name := Some sn, set_status := Some STARTING,
                 set_startTime := Some (Some (clock 0))\<rparr>) m)))"
  using assms by (simp add: startServer_def Let_def)

lemma startServer_connected:
  assumes "c_connect (new_client sn config) = Inr u"
  shows "fst (startServer new_client clock sn config m) = Inr ()"
    and "map_get (clients (snd (startServer new_client clock sn config m))) sn =
           Some (new_client sn config)"
    and "\<exists>st. map_get (serverStatuses (snd (startServer new_client clock sn config m))) sn = Some st \<and>
           status st = RUNNING \<and>
           toolCount st = Some (length (case c_listTools (new_client sn config) of
                                          Inl _ \<Rightarrow> [] | Inr ts \<Rightarrow> ts))"
  using assms
  by (simp_all add: startServer_def Let_def map_get_set serverStatuses_updateServerStatus
      spread_def no_patch_def)

lemma startServer_ignores_running:
  "fst (startServer new_client clock sn config m) =
     (case c_connect (new_client sn config) of
        Inl e \<Rightarrow> Inl (MCPError (''Failed to start MCP server '' @ sn @ '': '' @ String_error e)
                       SERVER_START_FAILED (Some sn) (Some e))
      | Inr u \<Rightarrow> Inr ())"
  by (simp add: startServer_def Let_def split: sum.splits)



lemma getAllServerStatuses_emitEvent [simp]:
  "getAllServerStatuses (emitEvent now ty sn d m) = getAllServerStatuses m"
  by (simp add: getAllServerStatuses_def)








subsection \<open>Status of a server that was never started\<close>

text \<open>
  Claim C6.  When no status is stored for a server name, \<^verbatim>\<open>getServerStatus\<close> returns the
  status with that name and state \<^verbatim>\<open>stopped\<close> (every optional field absent), and the
  manager is as before: no entry is created.
\<close>

theorem getServerStatus_never_started:
  assumes "map_get (serverStatuses m) sn = None"
  shows "getServerStatus sn m =
           (\<lparr>status_name = sn, status = STOPPED, pid = None, startTime = None, error = None,
             toolCount = None, serverInfo = None\<rparr>, m)"
  using assms by (simp add: getServerStatus_def stopped_status_def)

theorem getServerStatus_never_started_witness:
  "map_get (serverStatuses new_MCPProcessManager) ''test-server'' = None \<and>
   status_name (fst (getServerStatus ''test-server'' new_MCPProcessManager)) = ''test-server'' \<and>
   status (fst (getServerStatus ''test-server'' new_MCPProcessManager)) = STOPPED \<and>
   snd (getServerStatus ''test-server'' new_MCPProcessManager) = new_MCPProcessManager \<and>
   getAllServerStatuses (snd (getServerStatus ''test-server'' new_MCPProcessManager)) = []"
proof -
  have h: "map_get (serverStatuses new_MCPProcessManager) ''test-server'' = None"
    by (simp add: new_MCPProcessManager_def map_get_def)
  show ?thesis
    using h getServerStatus_never_started [OF h]
    by (simp add: getAllServerStatuses_def new_MCPProcessManager_def map_values_def)
qed

subsection \<open>Failure of startServer\<close>

text \<open>
  Claim C4.  The only step of \<^verbatim>\<open>startServer\<close> that can throw is \<^verbatim>\<open>connect\<close> (a failure of
  \<^verbatim>\<open>getServerInfo\<close> or \<^verbatim>\<open>listTools\<close> is caught where it is requested and the call goes
  on).  Whenever \<^verbatim>\<open>connect\<close> fails, or the call rejects at all, both effects occur: the
  call rejects with an \<^verbatim>\<open>MCPError\<close> of code \<^verbatim>\<open>SERVER_START_FAILED\<close>, and the status
  stored for the name (the one \<^verbatim>\<open>getServerStatus\<close> returns) has state \<^verbatim>\<open>error\<close> and a
  non-empty error text.
\<close>

theorem startServer_failure_recorded_and_rejected:
  assumes "isl (c_connect (new_client sn config)) \<or>
           isl (fst (startServer new_client clock sn config m))"
  shows "\<exists>cause st text.
           c_connect (new_client sn config) = Inl cause \<and>
           fst (startServer new_client clock sn config m) =
             Inl (MCPError (''Failed to start MCP server '' @ sn @ '': '' @ String_error cause)
                    SERVER_START_FAILED (Some sn) (Some cause)) \<and>
           map_get (serverStatuses (snd (startServer new_client clock sn config m))) sn = Some st \<and>
           status st = ERROR \<and> error st = Some text \<and> text \<noteq> [] \<and>
           fst (getServerStatus sn (snd (startServer new_client clock sn config m))) = st"
proof (cases "c_connect (new_client sn config)")
  case (Inl cause)
  let ?st = "spread
      (spread (case map_get (serverStatuses m) sn of None \<Rightarrow> stopped_status sn | Some s \<Rightarrow> s)
         (no_patch\<lparr>set_name := Some sn, set_status := Some STARTING,
            set_startTime := Some (Some (clock 0))\<rparr>))
      (no_patch\<lparr>set_name := Some sn, set_status := Some ERROR,
         set_error := Some (Some (String_error cause))\<rparr>)"
  have stored: "map_get (serverStatuses (snd (startServer new_client clock sn config m))) sn = Some ?st"
    by (simp add: startServer_connect_failed [of new_client sn config cause, OF Inl] serverStatuses_updateServerStatus)
  have "status ?st = ERROR" and "error ?st = Some (String_error cause)"
    by (simp_all add: spread_def no_patch_def)
  moreover have "fst (getServerStatus sn (snd (startServer new_client clock sn config m))) = ?st"
    by (simp add: getServerStatus_def stored)
  ultimately show ?thesis
    using Inl stored String_error_nonempty [of cause]
    by (simp add: startServer_connect_failed [of new_client sn config cause, OF Inl])
next
  case (Inr u)
  then have "fst (startServer new_client clock sn config m) = Inr ()"
    by (rule startServer_connected(1) [of new_client sn config])
  with Inr assms show ?thesis by simp
qed

theorem startServer_failure_recorded_and_rejected_witness:
  "isl (c_connect (new_MCPClient ''invalid-server'' invalid_config)) \<and>
   fst (startServer new_MCPClient tick ''invalid-server'' invalid_config new_MCPProcessManager) =
     Inl (MCPError
       ''Failed to start MCP server invalid-server: MCPError: MCPClient.connect() is not supported in browser environment. Use BrowserMCPClient instead.''
       SERVER_START_FAILED (Some ''invalid-server'')
       (Some (MCPError
          ''MCPClient.connect() is not supported in browser environment. Use BrowserMCPClient instead.''
          SERVER_CONNECTION_FAILED (Some ''invalid-server'') None))) \<and>
   fst (getServerStatus ''invalid-server''
     (snd (startServer new_MCPClient tick ''invalid-server'' invalid_config new_MCPProcessManager))) =
     \<lparr>status_name = ''invalid-server'', status = ERROR, pid = None, startTime = Some 1000,
      error = Some ''MCPError: MCPClient.connect() is not supported in browser environment. Use BrowserMCPClient instead.'',
      toolCount = None, serverInfo = None\<rparr>"
proof -
  have h: "isl (c_connect (new_MCPClient ''invalid-server'' invalid_config))"
    by (simp add: new_MCPClient_def)
  have c: "c_connect (new_MCPClient ''invalid-server'' invalid_config) =
      Inl (MCPError
          ''MCPClient.connect() is not supported in browser environment. Use BrowserMCPClient instead.''
          SERVER_CONNECTION_FAILED (Some ''invalid-server'') None)"
    by (simp add: new_MCPClient_def)
  have s: "fst (getServerStatus ''invalid-server''
     (snd (startServer new_MCPClient tick ''invalid-server'' invalid_config new_MCPProcessManager))) =
     \<lparr>status_name = ''invalid-server'', status = ERROR, pid = None, startTime = Some 1000,
      error = Some ''MCPError: MCPClient.connect() is not supported in browser environment. Use BrowserMCPClient instead.'',
      toolCount = None, serverInfo = None\<rparr>"
    by (simp add: manager_eval new_MCPClient_def)
  show ?thesis
    using h s startServer_failure_recorded_and_rejected
      [of new_MCPClient "''invalid-server''" invalid_config tick new_MCPProcessManager, OF disjI1 [OF h]]
    by (simp add: c String_error_def)
qed

subsection \<open>Events of a tool call\<close>

text \<open>
  Claim C5.  For a server with a live client, \<^verbatim>\<open>callTool\<close> adds to the log, in this
  order: the event \<^verbatim>\<open>tool_call_started\<close> (and its deliveries), the call of the client,
  and one terminal event (and its deliveries), which is \<^verbatim>\<open>tool_call_failed\<close> when the
  client's call failed and \<^verbatim>\<open>tool_call_completed\<close> otherwise.  So the events emitted by
  the call are exactly two, the second being the terminal one; and the call returns what
  the client returned or threw.
\<close>

theorem callTool_events:
  assumes "map_get (clients m) sn = Some client"
  shows "\<exists>started terminal.
           event_type started = tool_call_started \<and>
           event_type terminal =
             (if isl (c_callTool client
                   \<lparr>toolName = tn, call_args = a, call_serverName = sn, callId = cid\<rparr>)
              then tool_call_failed else tool_call_completed) \<and>
           trace (snd (callTool clock sn tn a cid m)) =
             trace m @ Emitted started # deliveries m sn started @
             Dispatched sn \<lparr>toolName = tn, call_args = a, call_serverName = sn, callId = cid\<rparr> #
             Emitted terminal # deliveries m sn terminal \<and>
           emitted_types (drop (length (trace m)) (trace (snd (callTool clock sn tn a cid m)))) =
             [tool_call_started, event_type terminal] \<and>
           fst (callTool clock sn tn a cid m) =
             c_callTool client \<lparr>toolName = tn, call_args = a, call_serverName = sn, callId = cid\<rparr>"
proof -
  let ?tc = "\<lparr>toolName = tn, call_args = a, call_serverName = sn, callId = cid\<rparr>"
  let ?e0 = "\<lparr>event_type = tool_call_started, event_serverName = sn, timestamp = clock 0,
             event_data = ToolCallData ?tc\<rparr>"
  have dl: "deliveries (m'\<lparr>trace := t\<rparr>) sn e = deliveries m' sn e" for m' t e
    by (simp add: deliveries_def)
  have de: "deliveries (emitEvent now ty sn' d m') sn e = deliveries m' sn e" for now ty sn' d m' e
    by (simp add: deliveries_def)
  show ?thesis
  proof (cases "c_callTool client ?tc")
    case (Inl e)
    let ?e1 = "\<lparr>event_type = tool_call_failed, event_serverName = sn, timestamp = clock 1,
             event_data = ToolCallErrorData ?tc (String_error e)\<rparr>"
    have tr: "trace (snd (callTool clock sn tn a cid m)) =
        trace m @ Emitted ?e0 # deliveries m sn ?e0 @ Dispatched sn ?tc #
          Emitted ?e1 # deliveries m sn ?e1"
      using assms Inl by (simp add: callTool_def Let_def trace_emitEvent dl de)
    have res: "fst (callTool clock sn tn a cid m) = c_callTool client ?tc"
      using assms Inl by (simp add: callTool_def Let_def)
    show ?thesis
      by (rule exI [of _ ?e0], rule exI [of _ ?e1])
        (simp add: tr res Inl emitted_types_append emitted_types_deliveries)
  next
    case (Inr res)
    let ?e1 = "\<lparr>event_type = tool_call_completed, event_serverName = sn, timestamp = clock 1,
             event_data = ToolCallResultData ?tc res\<rparr>"
    have tr: "trace (snd (callTool clock sn tn a cid m)) =
        trace m @ Emitted ?e0 # deliveries m sn ?e0 @ Dispatched sn ?tc #
          Emitted ?e1 # deliveries m sn ?e1"
      using assms Inr by (simp add: callTool_def Let_def trace_emitEvent dl de)
    have res: "fst (callTool clock sn tn a cid m) = c_callTool client ?tc"
      using assms Inr by (simp add: callTool_def Let_def)
    show ?thesis
      by (rule exI [of _ ?e0], rule exI [of _ ?e1])
        (simp add: tr res Inr emitted_types_append emitted_types_deliveries)
  qed
qed

theorem callTool_events_witness:
  "map_get (clients running_manager) ''echo'' = Some (live_client ''echo'' echo_config) \<and>
   map_get (clients stuck_manager) ''echo'' = Some (stuck_client ''echo'' echo_config) \<and>
   drop (length (trace running_manager))
     (trace (snd (callTool tick ''echo'' ''echo'' ''{}'' (Some ''c1'') running_manager))) =
     [Emitted \<lparr>event_type = tool_call_started, event_serverName = ''echo'', timestamp = 1000,
        event_data = ToolCallData \<lparr>toolName = ''echo'', call_args = ''{}'',
          call_serverName = ''echo'', callId = Some ''c1''\<rparr>\<rparr>,
      Delivered 7 \<lparr>event_type = tool_call_started, event_serverName = ''echo'', timestamp = 1000,
        event_data = ToolCallData \<lparr>toolName = ''echo'', call_args = ''{}'',
          call_serverName = ''echo'', callId = Some ''c1''\<rparr>\<rparr>,
      Dispatched ''echo'' \<lparr>toolName = ''echo'', call_args = ''{}'',
          call_serverName = ''echo'', callId = Some ''c1''\<rparr>,
      Emitted \<lparr>event_type = tool_call_completed, event_serverName = ''echo'', timestamp = 1001,
        event_data = ToolCallResultData \<lparr>toolName = ''echo'', call_args = ''{}'',
          call_serverName = ''echo'', callId = Some ''c1''\<rparr>
          \<lparr>result_callId = Some ''c1'', success = True, result = Some ''{}'',
           result_error = None, duration = Some 1\<rparr>\<rparr>,
      Delivered 7 \<lparr>event_type = tool_call_completed, event_serverName = ''echo'', timestamp = 1001,
        event_data = ToolCallResultData \<lparr>toolName = ''echo'', call_args = ''{}'',
          call_serverName = ''echo'', callId = Some ''c1''\<rparr>
          \<lparr>result_callId = Some ''c1'', success = True, result = Some ''{}'',
           result_error = None, duration = Some 1\<rparr>\<rparr>] \<and>
   emitted_types (drop (length (trace stuck_manager))
     (trace (snd (callTool tick ''echo'' ''echo'' ''{}'' None stuck_manager)))) =
     [tool_call_started, tool_call_failed]"
proof -
  have h1: "map_get (clients running_manager) ''echo'' = Some (live_client ''echo'' echo_config)"
    by (simp add: running_manager_def manager_eval live_client_def)
  have h2: "map_get (clients stuck_manager) ''echo'' = Some (stuck_client ''echo'' echo_config)"
    by (simp add: stuck_manager_def manager_eval stuck_client_def live_client_def)
  have t1: "drop (length (trace running_manager))
     (trace (snd (callTool tick ''echo'' ''echo'' ''{}'' (Some ''c1'') running_manager))) =
     [Emitted \<lparr>event_type = tool_call_started, event_serverName = ''echo'', timestamp = 1000,
        event_data = ToolCallData \<lparr>toolName = ''echo'', call_args = ''{}'',
          call_serverName = ''echo'', callId = Some ''c1''\<rparr>\<rparr>,
      Delivered 7 \<lparr>event_type = tool_call_started, event_serverName = ''echo'', timestamp = 1000,
        event_data = ToolCallData \<lparr>toolName = ''echo'', call_args = ''{}'',
          call_serverName = ''echo'', callId = Some ''c1''\<rparr>\<rparr>,
      Dispatched ''echo'' \<lparr>toolName = ''echo'', call_args = ''{}'',
          call_serverName = ''echo'', callId = Some ''c1''\<rparr>,
      Emitted \<lparr>event_type = tool_call_completed, event_serverName = ''echo'', timestamp = 1001,
        event_data = ToolCallResultData \<lparr>toolName = ''echo'', call_args = ''{}'',
          call_serverName = ''echo'', callId = Some ''c1''\<rparr>
          \<lparr>result_callId = Some ''c1'', success = True, result = Some ''{}'',
           result_error = None, duration = Some 1\<rparr>\<rparr>,
      Delivered 7 \<lparr>event_type = tool_call_completed, event_serverName = ''echo'', timestamp = 1001,
        event_data = ToolCallResultData \<lparr>toolName = ''echo'', call_args = ''{}'',
          call_serverName = ''echo'', callId = Some ''c1''\<rparr>
          \<lparr>result_callId = Some ''c1'', success = True, result = Some ''{}'',
           result_error = None, duration = Some 1\<rparr>\<rparr>]"
    by (simp add: running_manager_def manager_eval live_client_def)
  show ?thesis
    using h1 h2 t1 callTool_events [OF h2, of "''echo''" "''{}''" None tick]
    by (auto simp: stuck_client_def live_client_def)
qed

subsection \<open>Managers of this repository\<close>

text \<open>
  \<^verbatim>\<open>MCPClient.connect\<close> throws whenever it is called, and \<^verbatim>\<open>startServer\<close> stores the
  client only after \<^verbatim>\<open>connect\<close>.  So the managers of this repository have no live client
  and no server in state \<^verbatim>\<open>running\<close> (lemma \<open>repo_reachable_no_live_client\<close>), and the
  two claims below, which speak of a server that has a live client, hold of them because
  that never is the case.  Each theorem states the claim and what makes it hold.
\<close>

subsection \<open>Starting a server that has a live client\<close>



subsection \<open>Failure of disconnect in stopServer\<close>



subsection \<open>Failure of listTools\<close>




subsection \<open>The same methods with a client class that connects\<close>

text \<open>
  The methods of the manager are written for any client, and the lemmas of this subsection
  follow their text where the repository's own client never takes it.  A client whose
  \<^verbatim>\<open>disconnect\<close> throws would stay in the map, \<^verbatim>\<open>stopServer\<close> rejecting; and
  \<^verbatim>\<open>startServer\<close>, which has no guard on the current state, would put a second client over
  a live one.
\<close>

lemma stopServer_failing_disconnect:
  assumes "map_get (clients m) sn = Some client"
    and "c_disconnect client = Inl e"
  shows "\<exists>st. map_get (serverStatuses (snd (stopServer clock sn m))) sn = Some st \<and>
           status st = ERROR \<and> error st = Some (String_error e) \<and>
           fst (stopServer clock sn m) =
             Inl (MCPError (''Failed to stop MCP server '' @ sn @ '': '' @ String_error e)
                    SERVER_START_FAILED (Some sn) (Some e)) \<and>
           clients (snd (stopServer clock sn m)) = clients m \<and>
           trace (snd (stopServer clock sn m)) = trace m"
  using assms
  by (simp add: stopServer_def Let_def serverStatuses_updateServerStatus spread_def no_patch_def)

lemma startServer_over_live_client:
  "fst (getServerStatus ''echo'' running_manager) =
     \<lparr>status_name = ''echo'', status = RUNNING, pid = None, startTime = Some 1001,
      error = None, toolCount = Some 1, serverInfo = None\<rparr> \<and>
   map_get (clients running_manager) ''echo'' = Some (live_client ''echo'' echo_config) \<and>
   fst (startServer new_MCPClient tick ''echo'' echo_config running_manager) =
     Inl (MCPError
       ''Failed to start MCP server echo: MCPError: MCPClient.connect() is not supported in browser environment. Use BrowserMCPClient instead.''
       SERVER_START_FAILED (Some ''echo'')
       (Some (MCPError
          ''MCPClient.connect() is not supported in browser environment. Use BrowserMCPClient instead.''
          SERVER_CONNECTION_FAILED (Some ''echo'') None))) \<and>
   fst (getServerStatus ''echo''
         (snd (startServer new_MCPClient tick ''echo'' echo_config running_manager))) =
     \<lparr>status_name = ''echo'', status = ERROR, pid = None, startTime = Some 1000,
      error = Some ''MCPError: MCPClient.connect() is not supported in browser environment. Use BrowserMCPClient instead.'',
      toolCount = Some 1, serverInfo = None\<rparr> \<and>
   fst (startServer live_client tick ''echo'' invalid_config running_manager) = Inr () \<and>
   map_get (clients (snd (startServer live_client tick ''echo'' invalid_config running_manager)))
     ''echo'' = Some (live_client ''echo'' invalid_config) \<and>
   live_client ''echo'' invalid_config \<noteq> live_client ''echo'' echo_config \<and>
   emitted_types (trace (snd (startServer live_client tick ''echo'' invalid_config running_manager))) =
     [server_started, server_started]"
  by (simp add: running_manager_def manager_eval new_MCPClient_def live_client_def
      echo_config_def invalid_config_def)

end
